theory Spec2Isabelle
  imports Main "HOL-Library.Multiset"
begin

section \<open>Data model of domino\_game.py\<close>

text \<open>
  A domino is a Python tuple of two ints. The named tuples \<open>Action\<close>, \<open>TurnData\<close> and
  \<open>TurnDataPoint\<close> are datatypes with one constructor of the same name and the fields as
  selectors. \<open>domino_played\<close> is \<open>None\<close> for a pass.
\<close>

type_synonym domino = "int \<times> int"

datatype action = Action (insert_end: bool) (domino: domino) (flip: bool)

datatype turn_data = TurnData (turn_played_dominos: "domino list") (legal_moves: "action list")

datatype turn_data_point =
  TurnDataPoint (player_name: string) (did_play: bool) (domino_played: "domino option")

text \<open>
  The exceptions the engine can raise: \<open>list.remove\<close> of an absent element raises
  ValueError, indexing an empty list raises IndexError, subscripting \<open>None\<close> raises
  TypeError. A raising operation returns \<open>Inl\<close> with the error and the state as the
  in-place mutations left it when the exception was raised.
\<close>

datatype error = ValueError | TypeError | IndexError

text \<open>
  The move chooser is an external collaborator (\<open>ActionChooser.choose_action\<close>); its
  answer to one call is a function of the turn data it is shown.
\<close>

type_synonym action_chooser = "turn_data \<Rightarrow> action"

text \<open>Class \<open>Player\<close>: the fields \<open>_name\<close>, \<open>_dominos\<close> and \<open>score\<close>.\<close>

record player =
  name :: string
  dominos :: "domino list"
  score :: int

text \<open>
  Class \<open>Game\<close>. \<open>self.winner\<close> is a reference to one of the objects of
  \<open>self.players\<close>; it is modelled by the seat (list position) of that object, so that
  \<open>self.players.index(self.winner)\<close> is \<open>winner\<close> itself (the four seats hold four
  distinct player objects).
\<close>

record game =
  num_players :: nat
  round_score :: int
  game_num :: nat
  round_num :: nat
  players :: "player list"
  played_dominos :: "domino list"
  round_history :: "turn_data_point list"
  winner :: nat
  first_game_round_step :: bool
  next_player_index :: nat

section \<open>Class Player\<close>

definition Player_init :: "string \<Rightarrow> player" where
  "Player_init nm = \<lparr>name = nm, dominos = [], score = 0\<rparr>"

definition reset :: "player \<Rightarrow> player" where
  "reset p = p\<lparr>dominos := []\<rparr>"

definition give_dominos :: "player \<Rightarrow> domino list \<Rightarrow> player" where
  "give_dominos p ds = p\<lparr>dominos := ds\<rparr>"

definition is_hand_empty :: "player \<Rightarrow> bool" where
  "is_hand_empty p = (length (dominos p) = 0)"

definition has_double_six :: "player \<Rightarrow> bool" where
  "has_double_six p = (count_list (dominos p) (6, 6) = 1)"

text \<open>
  \<open>play_double_six\<close> appends to the board first and removes from the hand second, so a
  hand without the double six raises ValueError with the board already extended.
\<close>

definition play_double_six ::
  "player \<Rightarrow> domino list \<Rightarrow> (error \<times> player \<times> domino list) + (domino list \<times> player)" where
  "play_double_six p played =
     (let played' = played @ [(6, 6)]
      in if (6, 6) \<in> set (dominos p)
         then Inr (played', p\<lparr>dominos := remove1 (6, 6) (dominos p)\<rparr>)
         else Inl (ValueError, p, played'))"

text \<open>The body of the loop of \<open>get_legal_moves\<close>: four independent tests per tile.\<close>

definition legal_moves_tile :: "int \<Rightarrow> int \<Rightarrow> domino \<Rightarrow> action list \<Rightarrow> action list" where
  "legal_moves_tile head tail d actions =
     (let a1 = (if fst d = tail then actions @ [Action True d False] else actions);
          a2 = (if snd d = tail then a1 @ [Action True d True] else a1);
          a3 = (if fst d = head then a2 @ [Action False d True] else a2);
          a4 = (if snd d = head then a3 @ [Action False d False] else a3)
      in a4)"

definition get_legal_moves :: "player \<Rightarrow> domino list \<Rightarrow> action list" where
  "get_legal_moves p played =
     (if length played = 0 then map (\<lambda>d. Action True d False) (dominos p)
      else let head = fst (hd played); tail = snd (last played)
           in fold (legal_moves_tile head tail) (dominos p) [])"

text \<open>
  \<open>take_turn\<close>: the chosen move is applied as it comes back from the chooser. The board is
  changed before the tile is removed from the hand.
\<close>

definition take_turn ::
  "action_chooser \<Rightarrow> player \<Rightarrow> domino list \<Rightarrow>
     (error \<times> player \<times> domino list) + ((bool \<times> domino list \<times> domino option) \<times> player)" where
  "take_turn choose_action p played =
     (let moves = get_legal_moves p played
      in if length moves = 0 then Inr ((False, played, None), p)
         else
           let move = choose_action (TurnData played moves);
               d = (if flip move then (snd (domino move), fst (domino move)) else domino move);
               played' = (if insert_end move then played @ [d] else d # played)
           in if domino move \<in> set (dominos p)
              then Inr ((True, played', Some d), p\<lparr>dominos := remove1 (domino move) (dominos p)\<rparr>)
              else Inl (ValueError, p, played'))"

definition get_points :: "player \<Rightarrow> int" where
  "get_points p = sum_list (map (\<lambda>d. fst d + snd d) (dominos p))"

section \<open>Class Game\<close>

definition DOMINOS :: "domino list" where
  "DOMINOS = [(0, 0), (0, 1), (0, 2), (0, 3), (0, 4), (0, 5), (0, 6), (1, 1),
              (1, 2), (1, 3), (1, 4), (1, 5), (1, 6), (2, 2), (2, 3), (2, 4),
              (2, 5), (2, 6), (3, 3), (3, 4), (3, 5), (3, 6), (4, 4), (4, 5),
              (4, 6), (5, 5), (5, 6), (6, 6)]"

text \<open>
  \<open>Game.__init__\<close> sets four attributes; the others do not exist before \<open>new_game\<close> and
  \<open>new_round\<close> assign them, and are given placeholder values here.
\<close>

definition Game_init :: "int \<Rightarrow> game" where
  "Game_init rs = \<lparr>num_players = 4, round_score = rs, game_num = 1, round_num = 1,
                   players = [], played_dominos = [], round_history = [], winner = 0,
                   first_game_round_step = False, next_player_index = 0\<rparr>"

text \<open>\<open>Game._reset\<close>.\<close>

definition reset_game :: "game \<Rightarrow> game" where
  "reset_game g = g\<lparr>played_dominos := [], round_history := [], players := map reset (players g)\<rparr>"

text \<open>Decimal rendering of \<open>i+1\<close> in the default player names \<open>P1\<close>, \<open>P2\<close>, ...\<close>

fun str_nat :: "nat \<Rightarrow> string" where
  "str_nat n = (if n < 10 then [char_of (48 + n)] else str_nat (n div 10) @ [char_of (48 + n mod 10)])"

declare str_nat.simps [simp del]

text \<open>
  \<open>new_game\<close>: \<open>shuffled\<close> is what \<open>random.shuffle\<close> makes of the list when
  \<open>shuffle_players\<close> is set. \<open>self.players[0]\<close> raises IndexError on an empty list.
  Nothing here assigns a score.
\<close>

definition new_game ::
  "(player list \<Rightarrow> player list) \<Rightarrow> game \<Rightarrow> player list option \<Rightarrow> bool \<Rightarrow> (error \<times> game) + game" where
  "new_game shuffled g players_arg shuffle_players =
     (let ps0 = (case players_arg of
                   None \<Rightarrow> map (\<lambda>i. Player_init (''P'' @ str_nat (i + 1))) [0..<num_players g]
                 | Some ps \<Rightarrow> ps);
          ps = (if shuffle_players then shuffled ps0 else ps0);
          g1 = reset_game (g\<lparr>players := ps\<rparr>)
      in if players g1 = [] then Inl (IndexError, g1)
         else Inr (g1\<lparr>winner := 0, first_game_round_step := True\<rparr>))"

text \<open>The extended slice \<open>xs[i::k]\<close>: the elements at positions \<open>i\<close>, \<open>i+k\<close>, \<open>i+2k\<close>, ...\<close>

definition slice_from_step :: "nat \<Rightarrow> nat \<Rightarrow> 'a list \<Rightarrow> 'a list" where
  "slice_from_step i k xs = map (\<lambda>j. xs ! (i + k * j)) [0..<(length xs - i + (k - 1)) div k]"

fun first_index :: "('a \<Rightarrow> bool) \<Rightarrow> 'a list \<Rightarrow> nat option" where
  "first_index P [] = None"
| "first_index P (x # xs) = (if P x then Some 0 else map_option Suc (first_index P xs))"

text \<open>
  \<open>new_round\<close>: \<open>pool\<close> is the shuffled copy of \<open>DOMINOS\<close>. Seat \<open>i\<close> receives
  \<open>pool[i::4]\<close>. In the first round of a game the first holder of the double six becomes
  \<open>winner\<close>; the first mover is the seat of \<open>winner\<close>.
\<close>

definition new_round :: "domino list \<Rightarrow> game \<Rightarrow> game" where
  "new_round pool g =
     (let g1 = reset_game g;
          ps = map (\<lambda>(i, p). give_dominos p (slice_from_step i 4 pool)) (enumerate 0 (players g1));
          w = (if first_game_round_step g1
               then (case first_index has_double_six ps of Some j \<Rightarrow> j | None \<Rightarrow> winner g1)
               else winner g1)
      in g1\<lparr>players := ps, winner := w, next_player_index := w\<rparr>)"

text \<open>
  \<open>get_player_by_name\<close>: the first player of that name, as a seat; IndexError (\<open>None\<close>
  here) when the list comprehension is empty.
\<close>

definition get_player_by_name :: "game \<Rightarrow> string \<Rightarrow> nat option" where
  "get_player_by_name g nm = first_index (\<lambda>p. name p = nm) (players g)"

text \<open>Only called from \<open>step\<close> after \<open>self.players[self.next_player_index]\<close> succeeded.\<close>

definition get_next_player_index :: "game \<Rightarrow> nat" where
  "get_next_player_index g = (next_player_index g + 1) mod length (players g)"

text \<open>
  \<open>give_points_to_team(player, points)\<close>: the body reads \<open>self.winner\<close> and never its
  parameter \<open>player\<close>. The team is \<open>players[0::2]\<close> or \<open>players[1::2]\<close>.
\<close>

definition give_points_to_team :: "game \<Rightarrow> nat \<Rightarrow> int \<Rightarrow> game" where
  "give_points_to_team g player_arg points =
     (let player_index = winner g;
          start = (if player_index = 0 \<or> player_index = 2 then 0 else 1 :: nat)
      in g\<lparr>players := map (\<lambda>(j, p). if j mod 2 = start then p\<lparr>score := score p + points\<rparr> else p)
                          (enumerate 0 (players g))\<rparr>)"

definition update_score :: "game \<Rightarrow> game" where
  "update_score g =
     (let total_points = sum_list (map get_points (players g))
      in give_points_to_team g (winner g) total_points)"

text \<open>The counting loop of \<open>is_locked\<close>.\<close>

definition count_tile :: "int \<Rightarrow> domino \<Rightarrow> nat \<Rightarrow> nat" where
  "count_tile head d cnt =
     (let c1 = (if fst d = head then cnt + 1 else cnt);
          c2 = (if snd d = head then c1 + 1 else c1)
      in c2)"

definition is_locked :: "game \<Rightarrow> error + bool" where
  "is_locked g =
     (if played_dominos g = [] then Inl IndexError
      else let head = fst (hd (played_dominos g)); tail = snd (last (played_dominos g))
           in if head \<noteq> tail then Inr False
              else let cnt = fold (count_tile head) (played_dominos g) 0
                   in if cnt = 8 then Inr True else Inr False)"

text \<open>
  \<open>check_for_bonus_points\<close>. After the test \<open>if last_move.did_play: return\<close> the last
  move is a pass. In the last branch \<open>self.played_dominos.remove(last_domino)\<close> raises
  ValueError when the value is not on the board (always so for \<open>None\<close>); otherwise it
  removes the first occurrence in place and returns \<open>None\<close>, and the subscript
  \<open>dominos_played_wout_last[0]\<close> raises TypeError.
\<close>

definition check_for_bonus_points :: "game \<Rightarrow> (error \<times> game) + game" where
  "check_for_bonus_points g =
     (let bonus_points = 25; hist = round_history g
      in if length hist < 2 then Inr g
         else
           let last_move = last hist
           in if did_play last_move then Inr g
              else case get_player_by_name g (player_name last_move) of
                None \<Rightarrow> Inl (IndexError, g)
              | Some last_player \<Rightarrow>
                  if length hist = 2 then Inr (give_points_to_team g last_player bonus_points)
                  else if length hist < 4 then Inr g
                  else
                    let last_four = drop (length hist - 4) hist
                    in if did_play (last_four ! 0) \<and> \<not> did_play (last_four ! 1)
                          \<and> \<not> did_play (last_four ! 2) \<and> \<not> did_play (last_four ! 3)
                       then case get_player_by_name g (player_name (last_four ! 0)) of
                              None \<Rightarrow> Inl (IndexError, g)
                            | Some pl \<Rightarrow> Inr (give_points_to_team g pl bonus_points)
                       else if \<not> is_hand_empty (players g ! last_player) then Inr g
                       else case domino_played last_move of
                              None \<Rightarrow> Inl (ValueError, g)
                            | Some last_domino \<Rightarrow>
                                if last_domino \<in> set (played_dominos g)
                                then Inl (TypeError,
                                          g\<lparr>played_dominos := remove1 last_domino (played_dominos g)\<rparr>)
                                else Inl (ValueError, g))"

text \<open>
  The first part of \<open>step\<close>: the acting player plays the double six (first step of a game)
  or takes a turn, and the turn is appended to the history.
\<close>

definition execute_turn :: "action_chooser \<Rightarrow> game \<Rightarrow> (error \<times> game) + game" where
  "execute_turn choose_action g =
     (let i = next_player_index g
      in if length (players g) \<le> i then Inl (IndexError, g)
         else
           let next_player = players g ! i
           in if first_game_round_step g
              then (case play_double_six next_player (played_dominos g) of
                      Inl (e, p, b) \<Rightarrow> Inl (e, g\<lparr>players := (players g)[i := p], played_dominos := b\<rparr>)
                    | Inr (b, p) \<Rightarrow>
                        Inr (g\<lparr>players := (players g)[i := p], played_dominos := b,
                               first_game_round_step := False,
                               round_history := round_history g
                                  @ [TurnDataPoint (name next_player) True (Some (6, 6))]\<rparr>))
              else (case take_turn choose_action next_player (played_dominos g) of
                      Inl (e, p, b) \<Rightarrow> Inl (e, g\<lparr>players := (players g)[i := p], played_dominos := b\<rparr>)
                    | Inr ((did, b, tile), p) \<Rightarrow>
                        Inr (g\<lparr>players := (players g)[i := p], played_dominos := b,
                               round_history := round_history g
                                  @ [TurnDataPoint (name next_player) did tile]\<rparr>)))"

text \<open>
  The second part of \<open>step\<close>, after the bonus check: empty hand first, then the locked
  board, then the advance of the turn index.
\<close>

definition finish_step :: "nat \<Rightarrow> game \<Rightarrow> (error \<times> game) + (bool \<times> game)" where
  "finish_step i g =
     (if is_hand_empty (players g ! i) then Inr (False, g\<lparr>winner := i\<rparr>)
      else case is_locked g of
             Inl e \<Rightarrow> Inl (e, g)
           | Inr True \<Rightarrow>
               let p_current = i; p_next = get_next_player_index g
               in Inr (False, g\<lparr>winner := (if get_points (players g ! p_current)
                                               < get_points (players g ! p_next)
                                            then p_current else p_next)\<rparr>)
           | Inr False \<Rightarrow> Inr (True, g\<lparr>next_player_index := get_next_player_index g\<rparr>))"

definition step :: "action_chooser \<Rightarrow> game \<Rightarrow> (error \<times> game) + (bool \<times> game)" where
  "step choose_action g =
     (case execute_turn choose_action g of
        Inl err \<Rightarrow> Inl err
      | Inr g1 \<Rightarrow>
          (case check_for_bonus_points g1 of
             Inl err \<Rightarrow> Inl err
           | Inr g2 \<Rightarrow> finish_step (next_player_index g) g2))"

section \<open>Example states\<close>

text \<open>Four fresh players, as \<open>new_game\<close> creates them, in a game whose winner is seat 0.\<close>

definition four_players :: "player list" where
  "four_players = [Player_init ''P1'', Player_init ''P2'', Player_init ''P3'', Player_init ''P4'']"

definition award_state :: game where
  "award_state = (Game_init 200)\<lparr>players := four_players\<rparr>"

text \<open>
  A round opened by P1 (seat 0, the previous winner) with the double six; P2 is to move and
  holds no six. \<open>opening_pass_state\<close> is the state once P2's pass is recorded.
\<close>

definition opening_state :: game where
  "opening_state = (Game_init 200)
     \<lparr>players := [\<lparr>name = ''P1'', dominos = [(0, 1)], score = 0\<rparr>,
                  \<lparr>name = ''P2'', dominos = [(1, 2)], score = 0\<rparr>,
                  \<lparr>name = ''P3'', dominos = [(3, 6)], score = 0\<rparr>,
                  \<lparr>name = ''P4'', dominos = [(2, 2)], score = 0\<rparr>],
      played_dominos := [(6, 6)],
      round_history := [TurnDataPoint ''P1'' True (Some (6, 6))],
      winner := 0, next_player_index := 1\<rparr>"

definition opening_pass_state :: game where
  "opening_pass_state = opening_state
     \<lparr>round_history := [TurnDataPoint ''P1'' True (Some (6, 6)), TurnDataPoint ''P2'' False None]\<rparr>"

text \<open>
  P1 has just played its last tile \<open>(1, 2)\<close> at the tail of \<open>[(2, 3), (3, 1)]\<close>, whose
  head is 2 and whose tail is 1.
\<close>

definition fit_state :: game where
  "fit_state = (Game_init 200)
     \<lparr>players := [\<lparr>name = ''P1'', dominos = [], score = 0\<rparr>,
                  \<lparr>name = ''P2'', dominos = [(0, 0)], score = 0\<rparr>,
                  \<lparr>name = ''P3'', dominos = [(4, 4)], score = 0\<rparr>,
                  \<lparr>name = ''P4'', dominos = [(5, 5)], score = 0\<rparr>],
      played_dominos := [(2, 3), (3, 1), (1, 2)],
      round_history := [TurnDataPoint ''P2'' True (Some (2, 3)), TurnDataPoint ''P3'' True (Some (3, 1)),
                        TurnDataPoint ''P4'' False None, TurnDataPoint ''P1'' True (Some (1, 2))],
      winner := 1, next_player_index := 0\<rparr>"

text \<open>
  A board with six of the seven sixes played, head 6 and tail 5; P1 (seat 0) is to move and
  holds \<open>(5, 6)\<close>, which locks the board. \<open>lock_state_after\<close> is the state after that move
  with the given winner.
\<close>

definition lock_state :: "domino list \<Rightarrow> domino list \<Rightarrow> game" where
  "lock_state hand1 hand2 = (Game_init 200)
     \<lparr>players := [\<lparr>name = ''P1'', dominos = hand1, score = 0\<rparr>,
                  \<lparr>name = ''P2'', dominos = hand2, score = 0\<rparr>,
                  \<lparr>name = ''P3'', dominos = [(2, 2)], score = 0\<rparr>,
                  \<lparr>name = ''P4'', dominos = [(3, 3)], score = 0\<rparr>],
      played_dominos := [(6, 0), (0, 1), (1, 6), (6, 6), (6, 2), (2, 3), (3, 6), (6, 4), (4, 5)],
      round_history := [TurnDataPoint ''P3'' True (Some (6, 4)), TurnDataPoint ''P4'' True (Some (4, 5))],
      winner := 2, next_player_index := 0\<rparr>"

definition lock_state_after :: "domino list \<Rightarrow> domino list \<Rightarrow> nat \<Rightarrow> game" where
  "lock_state_after hand1 hand2 w = (lock_state hand1 hand2)
     \<lparr>played_dominos := [(6, 0), (0, 1), (1, 6), (6, 6), (6, 2), (2, 3), (3, 6), (6, 4), (4, 5), (5, 6)],
      round_history := [TurnDataPoint ''P3'' True (Some (6, 4)), TurnDataPoint ''P4'' True (Some (4, 5)),
                        TurnDataPoint ''P1'' True (Some (5, 6))],
      winner := w\<rparr>"

text \<open>Two choosers with a fixed answer.\<close>

definition choose_five_six :: action_chooser where
  "choose_five_six data = Action True (5, 6) False"

definition choose_one_two :: action_chooser where
  "choose_one_two data = Action True (1, 2) False"

text \<open>A player holding \<open>(1, 2)\<close> and \<open>(3, 6)\<close>, and a caller's list of players with scores.\<close>

definition two_tile_player :: player where
  "two_tile_player = \<lparr>name = ''P1'', dominos = [(1, 2), (3, 6)], score = 0\<rparr>"

definition scored_players :: "player list" where
  "scored_players = [\<lparr>name = ''A'', dominos = [(1, 1)], score = 50\<rparr>,
                     \<lparr>name = ''B'', dominos = [], score = 0\<rparr>,
                     \<lparr>name = ''C'', dominos = [], score = 50\<rparr>,
                     \<lparr>name = ''D'', dominos = [], score = 0\<rparr>]"

section \<open>Auxiliary facts\<close>

lemma give_points_length [simp]:
  "length (players (give_points_to_team g pl n)) = length (players g)"
  by (simp add: give_points_to_team_def Let_def)

lemma give_points_nth:
  "j < length (players g) \<Longrightarrow>
   players (give_points_to_team g pl n) ! j =
     (if j mod 2 = (if winner g = 0 \<or> winner g = 2 then 0 else 1)
      then (players g ! j)\<lparr>score := score (players g ! j) + n\<rparr> else players g ! j)"
  by (simp add: give_points_to_team_def Let_def nth_enumerate_eq)

lemma give_points_fields [simp]:
  "winner (give_points_to_team g pl n) = winner g"
  "next_player_index (give_points_to_team g pl n) = next_player_index g"
  "played_dominos (give_points_to_team g pl n) = played_dominos g"
  "round_history (give_points_to_team g pl n) = round_history g"
  "first_game_round_step (give_points_to_team g pl n) = first_game_round_step g"
  by (simp_all add: give_points_to_team_def Let_def)

lemma give_points_dominos [simp]:
  "map dominos (players (give_points_to_team g pl n)) = map dominos (players g)"
  by (rule nth_equalityI) (simp_all add: give_points_nth)

lemma give_points_names [simp]:
  "map name (players (give_points_to_team g pl n)) = map name (players g)"
  by (rule nth_equalityI) (simp_all add: give_points_nth)

lemma check_bonus_cases:
  "check_for_bonus_points g = Inr g' \<Longrightarrow> g' = g \<or> (\<exists>pl. g' = give_points_to_team g pl 25)"
  by (auto simp: check_for_bonus_points_def Let_def split: if_splits option.splits)

lemma check_bonus_last_played:
  "2 \<le> length (round_history g) \<Longrightarrow> did_play (last (round_history g)) \<Longrightarrow>
   check_for_bonus_points g = Inr g"
  by (simp add: check_for_bonus_points_def Let_def)

lemma take_turn_score:
  "take_turn ch p b = Inr ((did, b', t), p') \<Longrightarrow> score p' = score p \<and> name p' = name p"
  by (auto simp: take_turn_def Let_def split: if_splits)

lemma play_double_six_score:
  "play_double_six p b = Inr (b', p') \<Longrightarrow> score p' = score p \<and> name p' = name p"
  by (auto simp: play_double_six_def Let_def split: if_splits)

lemma execute_turn_frame:
  "execute_turn ch g = Inr g1 \<Longrightarrow>
     next_player_index g1 = next_player_index g \<and> winner g1 = winner g
     \<and> next_player_index g < length (players g)
     \<and> (\<exists>p. players g1 = (players g)[next_player_index g := p]
            \<and> score p = score (players g ! next_player_index g)
            \<and> name p = name (players g ! next_player_index g))
     \<and> (\<exists>h. round_history g1 = round_history g @ [h])"
  by (auto simp: execute_turn_def Let_def split: if_splits sum.splits prod.splits
           dest: take_turn_score play_double_six_score)

lemma execute_turn_scores:
  assumes "execute_turn ch g = Inr g1"
  shows "map score (players g1) = map score (players g)"
proof -
  from execute_turn_frame [OF assms] obtain p where
    "players g1 = (players g)[next_player_index g := p]"
    "score p = score (players g ! next_player_index g)"
    "next_player_index g < length (players g)"
    by blast
  then show ?thesis
    by (simp add: map_update list_update_same_conv)
qed

lemma finish_step_players:
  "finish_step i g = Inr (c, g') \<Longrightarrow> players g' = players g"
  by (auto simp: finish_step_def Let_def split: if_splits sum.splits bool.splits)

lemma check_bonus_played:
  "round_history g \<noteq> [] \<Longrightarrow> did_play (last (round_history g)) \<Longrightarrow> check_for_bonus_points g = Inr g"
  by (simp add: check_for_bonus_points_def Let_def)

lemma check_bonus_frame:
  assumes "check_for_bonus_points g = Inr g'"
  shows "next_player_index g' = next_player_index g \<and> winner g' = winner g
     \<and> played_dominos g' = played_dominos g \<and> round_history g' = round_history g
     \<and> map dominos (players g') = map dominos (players g)
     \<and> length (players g') = length (players g)"
  using check_bonus_cases [OF assms] by auto

lemma fold_count_tile:
  "fold (count_tile h) bd n = n + count_list (concat (map (\<lambda>d. [fst d, snd d]) bd)) h"
  by (induction bd arbitrary: n) (simp_all add: count_tile_def Let_def)

lemma is_locked_frame:
  "played_dominos g' = played_dominos g \<Longrightarrow> is_locked g' = is_locked g"
  unfolding is_locked_def by (simp add: Let_def)

lemma step_split:
  assumes "step ch g = Inr (c, g')"
  obtains g1 g2 where "execute_turn ch g = Inr g1" "check_for_bonus_points g1 = Inr g2"
    "finish_step (next_player_index g) g2 = Inr (c, g')" "next_player_index g2 = next_player_index g"
    "length (players g2) = length (players g)"
proof -
  from assms obtain g1 g2 where
    e: "execute_turn ch g = Inr g1" and b: "check_for_bonus_points g1 = Inr g2"
    and f: "finish_step (next_player_index g) g2 = Inr (c, g')"
    by (auto simp: step_def split: sum.splits)
  from execute_turn_frame [OF e] check_bonus_frame [OF b]
  have "next_player_index g2 = next_player_index g" "length (players g2) = length (players g)"
    by auto
  with e b f that show ?thesis by blast
qed

lemma finish_step_empty:
  "is_hand_empty (players g ! i) \<Longrightarrow> finish_step i g = Inr (False, g\<lparr>winner := i\<rparr>)"
  by (simp add: finish_step_def)

lemma is_locked_count:
  "played_dominos g \<noteq> [] \<Longrightarrow>
      is_locked g = Inr (fst (hd (played_dominos g)) = snd (last (played_dominos g))
         \<and> count_list (concat (map (\<lambda>d. [fst d, snd d]) (played_dominos g)))
              (fst (hd (played_dominos g))) = 8)"
  by (simp add: is_locked_def Let_def fold_count_tile)

lemma finish_step_board:
  "finish_step i g = Inr (c, g') \<Longrightarrow> played_dominos g' = played_dominos g"
  by (auto simp: finish_step_def Let_def split: if_splits sum.splits bool.splits)

lemma step_locked:
  assumes "step ch g = Inr (c, g')" "\<not> is_hand_empty (players g' ! next_player_index g)"
    and "is_locked g' = Inr True"
  shows "\<not> c \<and> winner g' =
             (if get_points (players g' ! next_player_index g)
                  < get_points (players g' ! ((next_player_index g + 1) mod length (players g')))
              then next_player_index g
              else (next_player_index g + 1) mod length (players g'))"
proof -
  from assms(1) obtain g2 where f: "finish_step (next_player_index g) g2 = Inr (c, g')"
    and i: "next_player_index g2 = next_player_index g"
    by (auto elim: step_split)
  have pl: "players g' = players g2" using finish_step_players [OF f] .
  have "is_locked g2 = Inr True"
    using assms(3) is_locked_frame [OF finish_step_board [OF f]] by simp
  then show ?thesis
    using f assms(2) pl i
    by (auto simp: finish_step_def Let_def get_next_player_index_def split: if_splits)
qed

lemma step_unlocked:
  assumes "step ch g = Inr (c, g')" "\<not> is_hand_empty (players g' ! next_player_index g)"
    and "is_locked g' = Inr False"
  shows "c \<and> next_player_index g' = (next_player_index g + 1) mod length (players g')"
proof -
  from assms(1) obtain g2 where f: "finish_step (next_player_index g) g2 = Inr (c, g')"
    and i: "next_player_index g2 = next_player_index g"
    by (auto elim: step_split)
  have pl: "players g' = players g2" using finish_step_players [OF f] .
  have "is_locked g2 = Inr False"
    using assms(3) is_locked_frame [OF finish_step_board [OF f]] by simp
  then show ?thesis
    using f assms(2) pl i
    by (auto simp: finish_step_def Let_def get_next_player_index_def split: if_splits)
qed

lemma step_empty_hand:
  assumes "step ch g = Inr (c, g')" "is_hand_empty (players g' ! next_player_index g)"
  shows "\<not> c \<and> winner g' = next_player_index g \<and> next_player_index g' = next_player_index g"
proof -
  from assms(1) obtain g2 where f: "finish_step (next_player_index g) g2 = Inr (c, g')"
    and i: "next_player_index g2 = next_player_index g"
    by (auto elim: step_split)
  have pl: "players g' = players g2" using finish_step_players [OF f] .
  with assms(2) have "is_hand_empty (players g2 ! next_player_index g)" by simp
  from finish_step_empty [OF this] f i show ?thesis by auto
qed

lemma step_after_emptying_play:
  assumes "execute_turn ch g = Inr g1" "did_play (last (round_history g1))"
    "is_hand_empty (players g1 ! next_player_index g)"
  shows "step ch g = Inr (False, g1\<lparr>winner := next_player_index g\<rparr>)"
proof -
  have "round_history g1 \<noteq> []" using execute_turn_frame [OF assms(1)] by fastforce
  with assms(2) have "check_for_bonus_points g1 = Inr g1" by (simp add: check_bonus_played)
  with assms show ?thesis by (simp add: step_def finish_step_empty)
qed

lemma fold_legal_moves_tile:
  "fold (legal_moves_tile h t) ds acc =
     acc @ concat (map (\<lambda>d. (if fst d = t then [Action True d False] else [])
                          @ (if snd d = t then [Action True d True] else [])
                          @ (if fst d = h then [Action False d True] else [])
                          @ (if snd d = h then [Action False d False] else [])) ds)"
  by (induction ds arbitrary: acc) (simp_all add: legal_moves_tile_def Let_def)

lemma get_legal_moves_nonempty_board:
  "played \<noteq> [] \<Longrightarrow>
   get_legal_moves p played =
     concat (map (\<lambda>d. (if fst d = snd (last played) then [Action True d False] else [])
                     @ (if snd d = snd (last played) then [Action True d True] else [])
                     @ (if fst d = fst (hd played) then [Action False d True] else [])
                     @ (if snd d = fst (hd played) then [Action False d False] else []))
            (dominos p))"
  by (simp add: get_legal_moves_def Let_def fold_legal_moves_tile)

lemma legal_move_in_hand:
  "domino a \<in> set (dominos p)" if "a \<in> set (get_legal_moves p played)"
proof (cases "played = []")
  case True
  then show ?thesis using that by (auto simp: get_legal_moves_def)
next
  case False
  then show ?thesis using that by (auto simp: get_legal_moves_nonempty_board split: if_splits)
qed

lemma legal_move_iff:
  assumes "played \<noteq> []"
  shows "Action e d f \<in> set (get_legal_moves p played) \<longleftrightarrow>
     d \<in> set (dominos p) \<and>
       (if e then (if f then snd d else fst d) = snd (last played)
        else (if f then fst d else snd d) = fst (hd played))"
  using assms by (auto simp: get_legal_moves_nonempty_board split: if_splits)

lemma first_index_Some:
  "first_index P xs = Some i \<Longrightarrow> i < length xs \<and> P (xs ! i) \<and> (\<forall>j<i. \<not> P (xs ! j))"
proof (induction xs arbitrary: i)
  case Nil
  then show ?case by simp
next
  case (Cons x xs)
  show ?case
  proof (cases "P x")
    case True
    with Cons.prems show ?thesis by simp
  next
    case False
    with Cons.prems obtain k where k: "first_index P xs = Some k" "i = Suc k" by auto
    from Cons.IH [OF k(1)] False k(2) show ?thesis
      by (auto simp: nth_Cons split: nat.splits)
  qed
qed

lemma map_four:
  assumes "length xs = 4"
  shows "map f xs = [f (xs ! 0), f (xs ! 1), f (xs ! 2), f (xs ! 3)]"
proof -
  from assms obtain a b c d where "xs = [a, b, c, d]"
    by (auto simp: numeral_eq_Suc length_Suc_conv)
  then show ?thesis by simp
qed

lemma give_points_scores:
  assumes "length (players g) = 4"
  shows "map score (players (give_points_to_team g pl n)) =
     (if winner g = 0 \<or> winner g = 2
      then [score (players g ! 0) + n, score (players g ! 1),
            score (players g ! 2) + n, score (players g ! 3)]
      else [score (players g ! 0), score (players g ! 1) + n,
            score (players g ! 2), score (players g ! 3) + n])"
proof -
  have "length (players (give_points_to_team g pl n)) = 4" using assms by simp
  from map_four [OF this, of score] show ?thesis
    using assms by (auto simp: give_points_nth)
qed

lemma give_points_equal:
  assumes "length (players g) = 4"
    and "score (players g ! 0) = score (players g ! 2)"
    and "score (players g ! 1) = score (players g ! 3)"
  shows "score (players (give_points_to_team g pl n) ! 0) = score (players (give_points_to_team g pl n) ! 2)
     \<and> score (players (give_points_to_team g pl n) ! 1) = score (players (give_points_to_team g pl n) ! 3)"
  using assms by (simp add: give_points_nth)

lemma check_bonus_equal:
  assumes "check_for_bonus_points g = Inr g'" "length (players g) = 4"
    and "score (players g ! 0) = score (players g ! 2)"
    and "score (players g ! 1) = score (players g ! 3)"
  shows "length (players g') = 4 \<and> score (players g' ! 0) = score (players g' ! 2)
     \<and> score (players g' ! 1) = score (players g' ! 3)"
  using check_bonus_cases [OF assms(1)] give_points_equal [OF assms(2-4)] assms(2-4)
  by auto

lemma step_equal:
  assumes "step ch g = Inr (c, g')" "length (players g) = 4"
    and "score (players g ! 0) = score (players g ! 2)"
    and "score (players g ! 1) = score (players g ! 3)"
  shows "length (players g') = 4 \<and> score (players g' ! 0) = score (players g' ! 2)
     \<and> score (players g' ! 1) = score (players g' ! 3)"
proof -
  from assms(1) obtain g1 g2 where
    e: "execute_turn ch g = Inr g1" and b: "check_for_bonus_points g1 = Inr g2"
    and f: "finish_step (next_player_index g) g2 = Inr (c, g')"
    by (auto simp: step_def split: sum.splits)
  from execute_turn_scores [OF e] have sc: "map score (players g1) = map score (players g)" .
  then have len: "length (players g1) = 4" using assms(2) by (metis length_map)
  have nth: "score (players g1 ! j) = score (players g ! j)" if "j < 4" for j
    using that sc len assms(2) by (metis nth_map)
  have "score (players g1 ! 0) = score (players g1 ! 2)" "score (players g1 ! 1) = score (players g1 ! 3)"
    using assms(3,4) by (simp_all add: nth)
  from check_bonus_equal [OF b len this] finish_step_players [OF f]
  show ?thesis by simp
qed

lemma slice_from_step_length:
  "length (slice_from_step i k xs) = (length xs - i + (k - 1)) div k"
  by (simp add: slice_from_step_def)

lemma slice_from_step_nth:
  "j < (length xs - i + (k - 1)) div k \<Longrightarrow> slice_from_step i k xs ! j = xs ! (i + k * j)"
  by (simp add: slice_from_step_def)

lemma new_round_players_length:
  "length (players (new_round pool g)) = length (players g)"
  by (simp add: new_round_def Let_def reset_game_def)

lemma new_round_hand:
  "s < length (players g) \<Longrightarrow>
   dominos (players (new_round pool g) ! s) = slice_from_step s 4 pool"
  by (simp add: new_round_def Let_def reset_game_def nth_enumerate_eq give_dominos_def)

lemma distinct_DOMINOS: "distinct DOMINOS"
  by (simp add: DOMINOS_def)

lemma length_DOMINOS: "length DOMINOS = 28"
  by (simp add: DOMINOS_def)

lemma hand_set:
  assumes "length pool = 28" "s < 4"
  shows "set (slice_from_step s 4 pool) = {pool ! (s + 4 * j) | j. j < 7}"
proof -
  have n: "(length pool - s + (4 - 1)) div 4 = 7" using assms by simp
  show ?thesis
    unfolding slice_from_step_def n by auto
qed

lemma reset_game_scores:
  "map score (players (reset_game g)) = map score (players g)"
  by (simp add: reset_game_def reset_def comp_def)

lemma take_turn_pass:
  "take_turn ch p b = Inr ((False, b', t), p') \<Longrightarrow> p' = p"
  by (auto simp: take_turn_def Let_def split: if_splits)

lemma execute_turn_pass_keeps_players:
  assumes "execute_turn ch g = Inr g1" "\<not> did_play (last (round_history g1))"
  shows "players g1 = players g"
  using assms
  by (auto simp: execute_turn_def Let_def split: if_splits sum.splits prod.splits
           dest!: take_turn_pass)

lemma first_index_None:
  "first_index P xs = None \<longleftrightarrow> (\<forall>x \<in> set xs. \<not> P x)"
  by (induction xs) auto

lemma get_player_by_name_None:
  "get_player_by_name g nm = None \<longleftrightarrow> nm \<notin> set (map name (players g))"
  by (auto simp: get_player_by_name_def first_index_None)

lemma give_points_frame:
  "(give_points_to_team g pl n)\<lparr>players := players g\<rparr> = g"
  by (simp add: give_points_to_team_def Let_def)

lemma new_game_result:
  assumes "seated = (if shuffle_players then shuffled given else given)"
    and "given = (case players_arg of
                   None \<Rightarrow> map (\<lambda>i. Player_init (''P'' @ str_nat (i + 1))) [0..<num_players g]
                 | Some ps \<Rightarrow> ps)"
  shows "new_game shuffled g players_arg shuffle_players =
     (if seated = []
      then Inl (IndexError, g\<lparr>players := [], played_dominos := [], round_history := []\<rparr>)
      else Inr (g\<lparr>players := map (\<lambda>p. p\<lparr>dominos := []\<rparr>) seated, played_dominos := [],
                  round_history := [], winner := 0, first_game_round_step := True\<rparr>))"
proof -
  have r: "map reset seated = map (\<lambda>p. p\<lparr>dominos := []\<rparr>) seated"
    by (simp add: reset_def)
  have "new_game shuffled g players_arg shuffle_players =
     (let g1 = reset_game (g\<lparr>players := seated\<rparr>)
      in if players g1 = [] then Inl (IndexError, g1)
         else Inr (g1\<lparr>winner := 0, first_game_round_step := True\<rparr>))"
    unfolding new_game_def assms Let_def by (rule refl)
  then show ?thesis
    by (simp add: Let_def reset_game_def r)
qed

section \<open>Claims\<close>

subsection \<open>C1: the team that an award credits\<close>

text \<open>
  Claim C1: every call of the team-award operation with a player \<open>p\<close> and an amount \<open>n\<close>
  adds \<open>n\<close> to exactly the two members of \<open>p\<close>'s own team, whoever the current winner is.
  The code reads \<open>self.winner\<close> instead of its parameter: with seat 0 as winner, an award of
  25 for the player of seat 1 (team of seats 1 and 3) goes to seats 0 and 2.
\<close>

theorem give_points_to_team_credits_winner_team:
  "winner award_state = 0
   \<and> map score (players award_state) = [0, 0, 0, 0]
   \<and> map score (players (give_points_to_team award_state 1 25)) = [25, 0, 25, 0]"
  by code_simp

subsection \<open>C2: the bonus at a history of two turns\<close>

text \<open>
  Claim C2, as stated: the bonus is given exactly when the first two turns are both passes,
  and not when the first turn placed a tile. In \<open>opening_pass_state\<close> the first turn placed
  the double six, the second turn is a pass, and the bonus is given.
\<close>

theorem opening_bonus_counterexample:
  "did_play (round_history opening_pass_state ! 0)
   \<and> \<not> did_play (round_history opening_pass_state ! 1)
   \<and> length (round_history opening_pass_state) = 2
   \<and> check_for_bonus_points opening_pass_state = Inr (give_points_to_team opening_pass_state 1 25)
   \<and> map score (players opening_pass_state) = [0, 0, 0, 0]
   \<and> map score (players (give_points_to_team opening_pass_state 1 25)) = [25, 0, 25, 0]"
  by code_simp

text \<open>
  Claim C2, amended: in a game of four players, at a history of exactly two turns the bonus
  is awarded exactly when the second turn is a pass (by a player of the game), whatever the
  first turn was: then 25 points are added to the score of both members of one of the two
  teams and nothing else changes; when the second turn placed a tile the state is unchanged.
  Which of the two teams receives the points is the subject of C1 and not part of this
  statement.
\<close>

theorem opening_bonus_on_second_pass:
  assumes "round_history g = [t0, t1]" and "length (players g) = 4"
  shows "(did_play t1 \<longrightarrow> check_for_bonus_points g = Inr g)
    \<and> (\<not> did_play t1 \<and> player_name t1 \<notin> set (map name (players g)) \<longrightarrow>
          check_for_bonus_points g = Inl (IndexError, g))
    \<and> (\<not> did_play t1 \<and> player_name t1 \<in> set (map name (players g)) \<longrightarrow>
          (\<exists>g'. check_for_bonus_points g = Inr g'
             \<and> g'\<lparr>players := players g\<rparr> = g
             \<and> map name (players g') = map name (players g)
             \<and> map dominos (players g') = map dominos (players g)
             \<and> (map score (players g')
                   = [score (players g ! 0) + 25, score (players g ! 1),
                      score (players g ! 2) + 25, score (players g ! 3)]
                \<or> map score (players g')
                   = [score (players g ! 0), score (players g ! 1) + 25,
                      score (players g ! 2), score (players g ! 3) + 25])))"
proof (intro conjI impI)
  assume "did_play t1"
  then show "check_for_bonus_points g = Inr g"
    using assms(1) by (simp add: check_for_bonus_points_def Let_def)
next
  assume "\<not> did_play t1 \<and> player_name t1 \<notin> set (map name (players g))"
  then have "\<not> did_play t1" "get_player_by_name g (player_name t1) = None"
    by (simp_all only: get_player_by_name_None not_False_eq_True)
  then show "check_for_bonus_points g = Inl (IndexError, g)"
    using assms(1) by (simp add: check_for_bonus_points_def Let_def)
next
  assume a: "\<not> did_play t1 \<and> player_name t1 \<in> set (map name (players g))"
  then have "get_player_by_name g (player_name t1) \<noteq> None"
    by (simp only: get_player_by_name_None not_not)
  then obtain pl where "get_player_by_name g (player_name t1) = Some pl" by blast
  with a have c: "check_for_bonus_points g = Inr (give_points_to_team g pl 25)"
    using assms(1) by (simp add: check_for_bonus_points_def Let_def)
  let ?g' = "give_points_to_team g pl 25"
  have f1: "?g'\<lparr>players := players g\<rparr> = g" by (rule give_points_frame)
  have f2: "map name (players ?g') = map name (players g)" by simp
  have f3: "map dominos (players ?g') = map dominos (players g)" by simp
  have f4: "map score (players ?g')
                   = [score (players g ! 0) + 25, score (players g ! 1),
                      score (players g ! 2) + 25, score (players g ! 3)]
                \<or> map score (players ?g')
                   = [score (players g ! 0), score (players g ! 1) + 25,
                      score (players g ! 2), score (players g ! 3) + 25]"
    using give_points_scores [OF assms(2), of pl 25] by (cases "winner g = 0 \<or> winner g = 2") simp_all
  show "\<exists>g'. check_for_bonus_points g = Inr g'
             \<and> g'\<lparr>players := players g\<rparr> = g
             \<and> map name (players g') = map name (players g)
             \<and> map dominos (players g') = map dominos (players g)
             \<and> (map score (players g')
                   = [score (players g ! 0) + 25, score (players g ! 1),
                      score (players g ! 2) + 25, score (players g ! 3)]
                \<or> map score (players g')
                   = [score (players g ! 0), score (players g ! 1) + 25,
                      score (players g ! 2), score (players g ! 3) + 25])"
    by (rule exI [of _ ?g']) (intro conjI c f1 f2 f3 f4)
qed

theorem opening_bonus_on_second_pass_witness:
  "round_history opening_pass_state
      = [TurnDataPoint ''P1'' True (Some (6, 6)), TurnDataPoint ''P2'' False None]
   \<and> length (players opening_pass_state) = 4
   \<and> did_play (TurnDataPoint ''P1'' True (Some (6, 6)))
   \<and> \<not> did_play (TurnDataPoint ''P2'' False None)
   \<and> ''P2'' \<in> set (map name (players opening_pass_state))
   \<and> (\<exists>g'. check_for_bonus_points opening_pass_state = Inr g'
          \<and> (map score (players g') = [25, 0, 25, 0] \<or> map score (players g') = [0, 25, 0, 25]))"
proof -
  have hist: "round_history opening_pass_state
      = [TurnDataPoint ''P1'' True (Some (6, 6)), TurnDataPoint ''P2'' False None]"
    by code_simp
  have four: "length (players opening_pass_state) = 4" by code_simp
  have nm: "''P2'' \<in> set (map name (players opening_pass_state))" by code_simp
  have s: "score (players opening_pass_state ! 0) = 0" "score (players opening_pass_state ! 1) = 0"
    "score (players opening_pass_state ! 2) = 0" "score (players opening_pass_state ! 3) = 0"
    by code_simp+
  have pass: "\<not> did_play (TurnDataPoint ''P2'' False None)" by simp
  have nm': "player_name (TurnDataPoint ''P2'' False None) \<in> set (map name (players opening_pass_state))"
    using nm by simp
  note inst = opening_bonus_on_second_pass [OF hist four]
  from inst [THEN conjunct2, THEN conjunct2, THEN mp, OF conjI [OF pass nm']]
  obtain g' where c: "check_for_bonus_points opening_pass_state = Inr g'"
    and sc: "map score (players g')
                   = [score (players opening_pass_state ! 0) + 25, score (players opening_pass_state ! 1),
                      score (players opening_pass_state ! 2) + 25, score (players opening_pass_state ! 3)]
                \<or> map score (players g')
                   = [score (players opening_pass_state ! 0), score (players opening_pass_state ! 1) + 25,
                      score (players opening_pass_state ! 2), score (players opening_pass_state ! 3) + 25]"
    by (elim exE conjE) (rule that)
  from sc have "map score (players g') = [25, 0, 25, 0] \<or> map score (players g') = [0, 25, 0, 25]"
    unfolding s by simp
  then have ex: "\<exists>g'. check_for_bonus_points opening_pass_state = Inr g'
          \<and> (map score (players g') = [25, 0, 25, 0] \<or> map score (players g') = [0, 25, 0, 25])"
    using c by (intro exI [of _ g'] conjI)
  have played: "did_play (TurnDataPoint ''P1'' True (Some (6, 6)))" by simp
  show ?thesis
    by (intro conjI hist four played pass nm ex)
qed

subsection \<open>C3: the bonus for going out with a tile that fits both ends\<close>

text \<open>
  Claim C3: when the most recent turn emptied the hand by playing a tile whose two values are
  the head and tail of the board without it, the bonus check awards 25 points. In
  \<open>fit_state\<close> P1 went out with \<open>(1, 2)\<close> on a board that had head 2 and tail 1; the check
  returns at \<open>if last_move.did_play: return\<close> and awards nothing.
\<close>

theorem domino_out_fit_not_awarded:
  "is_hand_empty (players fit_state ! 0)
   \<and> last (round_history fit_state) = TurnDataPoint ''P1'' True (Some (1, 2))
   \<and> remove1 (1, 2) (played_dominos fit_state) = [(2, 3), (3, 1)]
   \<and> map score (players fit_state) = [0, 0, 0, 0]
   \<and> check_for_bonus_points fit_state = Inr fit_state"
  by code_simp

subsection \<open>C4: an Action that was not offered\<close>

text \<open>
  Claim C4, as stated: when the chooser returns an Action that is not among the offered legal
  moves, the engine signals an invalid-move error and leaves board and hand unchanged. Here
  the board is \<open>[(6, 6)]\<close>, the offered moves both play \<open>(3, 6)\<close>, the chooser answers
  with \<open>(1, 2)\<close> appended unflipped, and the turn is applied.
\<close>

theorem unoffered_action_counterexample:
  "get_legal_moves two_tile_player [(6, 6)] = [Action True (3, 6) True, Action False (3, 6) False]
   \<and> choose_one_two (TurnData [(6, 6)] (get_legal_moves two_tile_player [(6, 6)]))
        = Action True (1, 2) False
   \<and> Action True (1, 2) False \<notin> set (get_legal_moves two_tile_player [(6, 6)])
   \<and> take_turn choose_one_two two_tile_player [(6, 6)]
        = Inr ((True, [(6, 6), (1, 2)], Some (1, 2)), two_tile_player\<lparr>dominos := [(3, 6)]\<rparr>)"
  by code_simp

text \<open>
  Claim C4, amended: the Action returned by the chooser is applied without any check against
  the offered legal moves. Whenever its tile is in the acting player's hand (as it is for
  every offered Action), the oriented tile is attached at the stated end of the board and
  the first copy of the tile is removed from the hand, whether or not the Action was offered.
  Only when the tile is not in the hand is an error raised (ValueError, from the removal), and
  then the board has already received the tile while the hand is unchanged.
\<close>

theorem take_turn_applies_chosen_action:
  assumes "get_legal_moves p played \<noteq> []"
    and "mv = choose_action (TurnData played (get_legal_moves p played))"
    and "d = (if flip mv then (snd (domino mv), fst (domino mv)) else domino mv)"
    and "played' = (if insert_end mv then played @ [d] else d # played)"
  shows "(mv \<in> set (get_legal_moves p played) \<longrightarrow> domino mv \<in> set (dominos p))
    \<and> (domino mv \<in> set (dominos p) \<longrightarrow>
          take_turn choose_action p played
            = Inr ((True, played', Some d), p\<lparr>dominos := remove1 (domino mv) (dominos p)\<rparr>))
    \<and> (domino mv \<notin> set (dominos p) \<longrightarrow>
          take_turn choose_action p played = Inl (ValueError, p, played'))"
  using assms by (auto simp: take_turn_def Let_def dest: legal_move_in_hand)

theorem take_turn_applies_chosen_action_witness:
  "get_legal_moves two_tile_player [(6, 6)] \<noteq> []
   \<and> Action True (1, 2) False \<notin> set (get_legal_moves two_tile_player [(6, 6)])
   \<and> (1, 2) \<in> set (dominos two_tile_player)
   \<and> take_turn choose_one_two two_tile_player [(6, 6)]
        = Inr ((True, [(6, 6), (1, 2)], Some (1, 2)),
               two_tile_player\<lparr>dominos := remove1 (1, 2) (dominos two_tile_player)\<rparr>)
   \<and> (5, 6) \<notin> set (dominos two_tile_player)
   \<and> take_turn choose_five_six two_tile_player [(6, 6)]
        = Inl (ValueError, two_tile_player, [(6, 6), (5, 6)])"
proof -
  let ?moves = "get_legal_moves two_tile_player [(6, 6)]"
  have ne: "?moves \<noteq> []" by code_simp
  have unoffered: "Action True (1, 2) False \<notin> set ?moves" by code_simp
  have mv1: "Action True (1, 2) False = choose_one_two (TurnData [(6, 6)] ?moves)"
    by (simp add: choose_one_two_def)
  have mv2: "Action True (5, 6) False = choose_five_six (TurnData [(6, 6)] ?moves)"
    by (simp add: choose_five_six_def)
  have d1: "(1, 2) = (if flip (Action True (1, 2) False)
                      then (snd (domino (Action True (1, 2) False)), fst (domino (Action True (1, 2) False)))
                      else domino (Action True (1, 2) False))"
    by simp
  have d2: "(5, 6) = (if flip (Action True (5, 6) False)
                      then (snd (domino (Action True (5, 6) False)), fst (domino (Action True (5, 6) False)))
                      else domino (Action True (5, 6) False))"
    by simp
  have b1: "[(6, 6), (1, 2) :: domino]
      = (if insert_end (Action True (1, 2) False) then [(6, 6)] @ [(1, 2)] else (1, 2) # [(6, 6)])"
    by simp
  have b2: "[(6, 6), (5, 6) :: domino]
      = (if insert_end (Action True (5, 6) False) then [(6, 6)] @ [(5, 6)] else (5, 6) # [(6, 6)])"
    by simp
  have in1: "(1, 2) \<in> set (dominos two_tile_player)" by code_simp
  have out2: "(5, 6) \<notin> set (dominos two_tile_player)" by code_simp
  from take_turn_applies_chosen_action
         [where p = two_tile_player and played = "[(6, 6)]" and choose_action = choose_one_two
            and mv = "Action True (1, 2) False" and d = "(1, 2)" and played' = "[(6, 6), (1, 2)]",
          OF ne mv1 d1 b1] in1
  have r1: "take_turn choose_one_two two_tile_player [(6, 6)]
        = Inr ((True, [(6, 6), (1, 2)], Some (1, 2)),
               two_tile_player\<lparr>dominos := remove1 (1, 2) (dominos two_tile_player)\<rparr>)"
    by simp
  from take_turn_applies_chosen_action
         [where p = two_tile_player and played = "[(6, 6)]" and choose_action = choose_five_six
            and mv = "Action True (5, 6) False" and d = "(5, 6)" and played' = "[(6, 6), (5, 6)]",
          OF ne mv2 d2 b2] out2
  have r2: "take_turn choose_five_six two_tile_player [(6, 6)]
        = Inl (ValueError, two_tile_player, [(6, 6), (5, 6)])"
    by simp
  from ne unoffered in1 r1 out2 r2 show ?thesis by blast
qed

subsection \<open>C5: the locked board and its winner\<close>

text \<open>
  Claim C5, as stated: on a locked board a tie in pip points is broken in favour of the
  acting player. In \<open>lock_state\<close> P1 (seat 0) locks the board, P1 and P2 are left with 3
  pips each, and the winner is seat 1.
\<close>

theorem lock_tie_counterexample:
  "next_player_index (lock_state [(5, 6), (1, 2)] [(0, 3)]) = 0
   \<and> step choose_five_six (lock_state [(5, 6), (1, 2)] [(0, 3)])
        = Inr (False, lock_state_after [(1, 2)] [(0, 3)] 1)
   \<and> is_locked (lock_state_after [(1, 2)] [(0, 3)] 1) = Inr True
   \<and> get_points (players (lock_state_after [(1, 2)] [(0, 3)] 1) ! 0) = 3
   \<and> get_points (players (lock_state_after [(1, 2)] [(0, 3)] 1) ! 1) = 3
   \<and> winner (lock_state_after [(1, 2)] [(0, 3)] 1) = 1"
  by code_simp

text \<open>
  Claim C5, amended: a non-empty board is locked exactly when its head value equals its tail
  value and that value occurs exactly 8 times among the left and right values of the placed
  tiles. When a step leaves the acting player with tiles and the board locked, the round
  ends and the winner is the acting player if it holds strictly fewer pip points than the
  next player in turn order, and the next player otherwise (so on a tie). When the board is
  not locked the round continues with the next seat.
\<close>

theorem is_locked_and_lock_winner:
  "(played_dominos g \<noteq> [] \<longrightarrow>
      is_locked g = Inr (fst (hd (played_dominos g)) = snd (last (played_dominos g))
         \<and> count_list (concat (map (\<lambda>d. [fst d, snd d]) (played_dominos g)))
              (fst (hd (played_dominos g))) = 8))
   \<and> (step ch g = Inr (c, g') \<and> \<not> is_hand_empty (players g' ! next_player_index g) \<longrightarrow>
        (is_locked g' = Inr True \<longrightarrow>
           \<not> c \<and> winner g' =
             (if get_points (players g' ! next_player_index g)
                  < get_points (players g' ! ((next_player_index g + 1) mod length (players g')))
              then next_player_index g
              else (next_player_index g + 1) mod length (players g')))
        \<and> (is_locked g' = Inr False \<longrightarrow>
             c \<and> next_player_index g' = (next_player_index g + 1) mod length (players g')))"
  using is_locked_count [of g] step_locked [of ch g c g'] step_unlocked [of ch g c g']
  by blast

theorem is_locked_and_lock_winner_witness:
  "played_dominos (lock_state [(5, 6), (1, 2)] [(0, 3)]) \<noteq> []
   \<and> is_locked (lock_state [(5, 6), (1, 2)] [(0, 3)]) = Inr False
   \<and> step choose_five_six (lock_state [(5, 6), (1, 2)] [(0, 3)])
        = Inr (False, lock_state_after [(1, 2)] [(0, 3)] 1)
   \<and> \<not> is_hand_empty (players (lock_state_after [(1, 2)] [(0, 3)] 1) ! 0)
   \<and> is_locked (lock_state_after [(1, 2)] [(0, 3)] 1) = Inr True
   \<and> winner (lock_state_after [(1, 2)] [(0, 3)] 1)
        = (if get_points (players (lock_state_after [(1, 2)] [(0, 3)] 1) ! 0)
               < get_points (players (lock_state_after [(1, 2)] [(0, 3)] 1) ! 1)
           then 0 else 1)"
proof -
  let ?g = "lock_state [(5, 6), (1, 2)] [(0, 3)]"
  let ?g' = "lock_state_after [(1, 2)] [(0, 3)] 1"
  have i: "next_player_index ?g = 0" by code_simp
  have n: "(0 + 1) mod length (players ?g') = 1" by code_simp
  have bd: "played_dominos ?g \<noteq> []" by code_simp
  have ends: "fst (hd (played_dominos ?g)) \<noteq> snd (last (played_dominos ?g))" by code_simp
  have st: "step choose_five_six ?g = Inr (False, ?g')" by code_simp
  have hand: "\<not> is_hand_empty (players ?g' ! 0)" by code_simp
  have lock: "is_locked ?g' = Inr True" by code_simp
  note inst = is_locked_and_lock_winner [of ?g choose_five_six False ?g']
  from inst bd ends have open_board: "is_locked ?g = Inr False" by simp
  from inst st hand lock
  have "winner ?g' = (if get_points (players ?g' ! 0) < get_points (players ?g' ! 1) then 0 else 1)"
    unfolding i n by blast
  with bd open_board st hand lock show ?thesis by blast
qed

subsection \<open>C6: legal moves\<close>

text \<open>
  Claim C6: on an empty board there is one Action per tile in hand, unflipped and appended.
  On a board with head \<open>h\<close> and tail \<open>t\<close> each tile \<open>(a, b)\<close> yields, in this order, an
  append-unflipped Action iff \<open>a = t\<close>, an append-flipped Action iff \<open>b = t\<close>, a
  prepend-flipped Action iff \<open>a = h\<close> and a prepend-unflipped Action iff \<open>b = h\<close>; nothing is
  deduplicated, so a double matching both ends yields 4 Actions. An empty result is a pass.
\<close>

theorem legal_moves_enumeration:
  "(played = [] \<longrightarrow> get_legal_moves p played = map (\<lambda>d. Action True d False) (dominos p))
   \<and> (played \<noteq> [] \<longrightarrow>
        get_legal_moves p played =
          concat (map (\<lambda>d. (if fst d = snd (last played) then [Action True d False] else [])
                     @ (if snd d = snd (last played) then [Action True d True] else [])
                     @ (if fst d = fst (hd played) then [Action False d True] else [])
                     @ (if snd d = fst (hd played) then [Action False d False] else []))
            (dominos p))
        \<and> (Action True d False \<in> set (get_legal_moves p played)
              \<longleftrightarrow> d \<in> set (dominos p) \<and> fst d = snd (last played))
        \<and> (Action True d True \<in> set (get_legal_moves p played)
              \<longleftrightarrow> d \<in> set (dominos p) \<and> snd d = snd (last played))
        \<and> (Action False d True \<in> set (get_legal_moves p played)
              \<longleftrightarrow> d \<in> set (dominos p) \<and> fst d = fst (hd played))
        \<and> (Action False d False \<in> set (get_legal_moves p played)
              \<longleftrightarrow> d \<in> set (dominos p) \<and> snd d = fst (hd played))
        \<and> (dominos p = [(v, v)] \<and> fst (hd played) = v \<and> snd (last played) = v \<longrightarrow>
              get_legal_moves p played =
                [Action True (v, v) False, Action True (v, v) True,
                 Action False (v, v) True, Action False (v, v) False]))
   \<and> (get_legal_moves p played = [] \<longrightarrow>
        take_turn choose_action p played = Inr ((False, played, None), p))"
proof (intro conjI impI)
  assume "played = []"
  then show "get_legal_moves p played = map (\<lambda>d. Action True d False) (dominos p)"
    by (simp add: get_legal_moves_def)
next
  assume "get_legal_moves p played = []"
  then show "take_turn choose_action p played = Inr ((False, played, None), p)"
    by (simp add: take_turn_def)
next
  assume "played \<noteq> []"
  then show "get_legal_moves p played =
          concat (map (\<lambda>d. (if fst d = snd (last played) then [Action True d False] else [])
                     @ (if snd d = snd (last played) then [Action True d True] else [])
                     @ (if fst d = fst (hd played) then [Action False d True] else [])
                     @ (if snd d = fst (hd played) then [Action False d False] else []))
            (dominos p))"
    by (rule get_legal_moves_nonempty_board)
next
  assume "played \<noteq> []"
  then show "Action True d False \<in> set (get_legal_moves p played)
              \<longleftrightarrow> d \<in> set (dominos p) \<and> fst d = snd (last played)"
    by (simp add: legal_move_iff)
next
  assume "played \<noteq> []"
  then show "Action True d True \<in> set (get_legal_moves p played)
              \<longleftrightarrow> d \<in> set (dominos p) \<and> snd d = snd (last played)"
    by (simp add: legal_move_iff)
next
  assume "played \<noteq> []"
  then show "Action False d True \<in> set (get_legal_moves p played)
              \<longleftrightarrow> d \<in> set (dominos p) \<and> fst d = fst (hd played)"
    by (simp add: legal_move_iff)
next
  assume "played \<noteq> []"
  then show "Action False d False \<in> set (get_legal_moves p played)
              \<longleftrightarrow> d \<in> set (dominos p) \<and> snd d = fst (hd played)"
    by (simp add: legal_move_iff)
next
  assume "played \<noteq> []" and "dominos p = [(v, v)] \<and> fst (hd played) = v \<and> snd (last played) = v"
  then show "get_legal_moves p played =
                [Action True (v, v) False, Action True (v, v) True,
                 Action False (v, v) True, Action False (v, v) False]"
    by (simp add: get_legal_moves_nonempty_board)
qed

theorem legal_moves_enumeration_witness:
  "[(6, 6)] \<noteq> ([] :: domino list)
   \<and> get_legal_moves two_tile_player [(6, 6)] = [Action True (3, 6) True, Action False (3, 6) False]
   \<and> Action True (3, 6) True \<in> set (get_legal_moves two_tile_player [(6, 6)])
   \<and> Action True (3, 6) False \<notin> set (get_legal_moves two_tile_player [(6, 6)])
   \<and> get_legal_moves (two_tile_player\<lparr>dominos := [(6, 6)]\<rparr>) [(6, 6)]
        = [Action True (6, 6) False, Action True (6, 6) True,
           Action False (6, 6) True, Action False (6, 6) False]
   \<and> get_legal_moves (two_tile_player\<lparr>dominos := [(1, 2)]\<rparr>) [(6, 6)] = []
   \<and> take_turn choose_one_two (two_tile_player\<lparr>dominos := [(1, 2)]\<rparr>) [(6, 6)]
        = Inr ((False, [(6, 6)], None), two_tile_player\<lparr>dominos := [(1, 2)]\<rparr>)"
proof -
  have ne: "[(6, 6)] \<noteq> ([] :: domino list)" by simp
  have hand: "dominos two_tile_player = [(1, 2), (3, 6)]" by code_simp
  have six: "dominos (two_tile_player\<lparr>dominos := [(6, 6)]\<rparr>) = [(6, 6)]
             \<and> fst (hd [(6, 6) :: domino]) = 6 \<and> snd (last [(6, 6) :: domino]) = 6"
    by simp
  have pass: "get_legal_moves (two_tile_player\<lparr>dominos := [(1, 2)]\<rparr>) [(6, 6)] = []"
    by code_simp
  from legal_moves_enumeration [where played = "[(6, 6)]" and p = two_tile_player and d = "(3, 6)"] ne
  have a: "get_legal_moves two_tile_player [(6, 6)] = [Action True (3, 6) True, Action False (3, 6) False]"
    and b: "Action True (3, 6) True \<in> set (get_legal_moves two_tile_player [(6, 6)])"
    and c: "Action True (3, 6) False \<notin> set (get_legal_moves two_tile_player [(6, 6)])"
    by (simp_all add: hand)
  from legal_moves_enumeration [where played = "[(6, 6)]"
          and p = "two_tile_player\<lparr>dominos := [(6, 6)]\<rparr>" and v = 6] ne six
  have d: "get_legal_moves (two_tile_player\<lparr>dominos := [(6, 6)]\<rparr>) [(6, 6)]
        = [Action True (6, 6) False, Action True (6, 6) True,
           Action False (6, 6) True, Action False (6, 6) False]"
    by blast
  from legal_moves_enumeration [where played = "[(6, 6)]"
          and p = "two_tile_player\<lparr>dominos := [(1, 2)]\<rparr>" and choose_action = choose_one_two] pass
  have e: "take_turn choose_one_two (two_tile_player\<lparr>dominos := [(1, 2)]\<rparr>) [(6, 6)]
        = Inr ((False, [(6, 6)], None), two_tile_player\<lparr>dominos := [(1, 2)]\<rparr>)"
    by blast
  from ne a b c d pass e show ?thesis by blast
qed

subsection \<open>C7: the deal\<close>

text \<open>
  Claim C7: for every deal (every shuffled pool, a permutation of the 28 tiles) to four
  players, tile \<open>i\<close> of the pool goes to seat \<open>i mod 4\<close> (as its tile number \<open>i div 4\<close>),
  each hand receives 7 tiles, the hands are pairwise disjoint and their union is the full set.
\<close>

theorem deal_partitions_pool:
  assumes "mset pool = mset DOMINOS" and "length (players g) = 4"
  shows "length (players (new_round pool g)) = 4
    \<and> (\<forall>s<4. dominos (players (new_round pool g) ! s) = slice_from_step s 4 pool)
    \<and> (\<forall>i<28. pool ! i = dominos (players (new_round pool g) ! (i mod 4)) ! (i div 4))
    \<and> (\<forall>s<4. length (dominos (players (new_round pool g) ! s)) = 7)
    \<and> (\<forall>s<4. \<forall>t<4. s \<noteq> t \<longrightarrow>
          set (dominos (players (new_round pool g) ! s))
            \<inter> set (dominos (players (new_round pool g) ! t)) = {})
    \<and> (\<Union>s<4. set (dominos (players (new_round pool g) ! s))) = set DOMINOS"
proof -
  let ?hand = "\<lambda>s. dominos (players (new_round pool g) ! s)"
  have len: "length pool = 28"
    using mset_eq_length [OF assms(1)] by (simp add: length_DOMINOS)
  have dist: "distinct pool"
    using mset_eq_imp_distinct_iff [OF assms(1)] by (simp add: distinct_DOMINOS)
  have sets: "set pool = set DOMINOS"
    using assms(1) by (rule mset_eq_setD)
  have hand: "?hand s = slice_from_step s 4 pool" if "s < 4" for s
    using that assms(2) by (simp add: new_round_hand)
  have hlen: "length (?hand s) = 7" if "s < 4" for s
    using that len by (simp add: hand slice_from_step_length)
  have rr: "pool ! i = ?hand (i mod 4) ! (i div 4)" if "i < 28" for i
  proof -
    have "i div 4 < (28 - i mod 4 + 3) div 4" using that by presburger
    then have "i div 4 < (length pool - i mod 4 + (4 - 1)) div 4" using len by simp
    then have "slice_from_step (i mod 4) 4 pool ! (i div 4) = pool ! (i mod 4 + 4 * (i div 4))"
      by (rule slice_from_step_nth)
    then show ?thesis by (simp add: hand)
  qed
  have disj: "set (?hand s) \<inter> set (?hand t) = {}" if "s < 4" "t < 4" "s \<noteq> t" for s t
  proof (rule ccontr)
    assume "set (?hand s) \<inter> set (?hand t) \<noteq> {}"
    then obtain x where "x \<in> set (?hand s)" "x \<in> set (?hand t)" by blast
    then obtain j k where j: "j < 7" "x = pool ! (s + 4 * j)" and k: "k < 7" "x = pool ! (t + 4 * k)"
      using \<open>s < 4\<close> \<open>t < 4\<close> len by (auto simp: hand hand_set)
    have "s + 4 * j < length pool" "t + 4 * k < length pool" using j k that len by simp_all
    with dist j k have "s + 4 * j = t + 4 * k" by (simp add: nth_eq_iff_index_eq)
    with that show False by presburger
  qed
  have un: "(\<Union>s<4. set (?hand s)) = set DOMINOS"
  proof -
    have "(\<Union>s<4. set (?hand s)) \<subseteq> set pool"
    proof
      fix x assume "x \<in> (\<Union>s<4. set (?hand s))"
      then obtain s j where "s < 4" "j < 7" "x = pool ! (s + 4 * j)"
        using len by (auto simp: hand hand_set)
      then show "x \<in> set pool" using len by simp
    qed
    moreover have "set pool \<subseteq> (\<Union>s<4. set (?hand s))"
    proof
      fix x assume "x \<in> set pool"
      then obtain i where i: "i < 28" "x = pool ! i" using len by (metis in_set_conv_nth)
      then have "x = ?hand (i mod 4) ! (i div 4)" using rr by simp
      moreover have "i div 4 < length (?hand (i mod 4))" using i hlen [of "i mod 4"] by simp
      ultimately have "x \<in> set (?hand (i mod 4))" by (metis nth_mem)
      then show "x \<in> (\<Union>s<4. set (?hand s))" by (auto intro: bexI [of _ "i mod 4"])
    qed
    ultimately show ?thesis using sets by blast
  qed
  show ?thesis
    using assms(2) hand rr hlen disj un by (simp add: new_round_players_length)
qed

theorem deal_partitions_pool_witness:
  "mset (rev DOMINOS) = mset DOMINOS
   \<and> length (players award_state) = 4
   \<and> dominos (players (new_round (rev DOMINOS) award_state) ! 1)
        = [(5, 6), (4, 4), (3, 3), (2, 3), (1, 4), (0, 6), (0, 2)]
   \<and> rev DOMINOS ! 5 = dominos (players (new_round (rev DOMINOS) award_state) ! 1) ! 1
   \<and> length (dominos (players (new_round (rev DOMINOS) award_state) ! 3)) = 7
   \<and> set (dominos (players (new_round (rev DOMINOS) award_state) ! 0))
        \<inter> set (dominos (players (new_round (rev DOMINOS) award_state) ! 2)) = {}
   \<and> (\<Union>s<4. set (dominos (players (new_round (rev DOMINOS) award_state) ! s))) = set DOMINOS"
proof -
  have perm: "mset (rev DOMINOS) = mset DOMINOS" by simp
  have four: "length (players award_state) = 4" by code_simp
  have hand1: "dominos (players (new_round (rev DOMINOS) award_state) ! 1)
        = [(5, 6), (4, 4), (3, 3), (2, 3), (1, 4), (0, 6), (0, 2)]"
    by code_simp
  note deal = deal_partitions_pool [OF perm four]
  from deal have "\<forall>i<28. rev DOMINOS ! i
      = dominos (players (new_round (rev DOMINOS) award_state) ! (i mod 4)) ! (i div 4)"
    by blast
  then have "rev DOMINOS ! 5
      = dominos (players (new_round (rev DOMINOS) award_state) ! (5 mod 4)) ! (5 div 4)"
    by simp
  then have a: "rev DOMINOS ! 5 = dominos (players (new_round (rev DOMINOS) award_state) ! 1) ! 1"
    by simp
  from deal have "\<forall>s<4. length (dominos (players (new_round (rev DOMINOS) award_state) ! s)) = 7"
    by blast
  then have b: "length (dominos (players (new_round (rev DOMINOS) award_state) ! 3)) = 7"
    by simp
  from deal have "\<forall>s<4. \<forall>t<4. s \<noteq> t \<longrightarrow>
          set (dominos (players (new_round (rev DOMINOS) award_state) ! s))
            \<inter> set (dominos (players (new_round (rev DOMINOS) award_state) ! t)) = {}"
    by blast
  then have c: "set (dominos (players (new_round (rev DOMINOS) award_state) ! 0))
        \<inter> set (dominos (players (new_round (rev DOMINOS) award_state) ! 2)) = {}"
    by simp
  from deal have d: "(\<Union>s<4. set (dominos (players (new_round (rev DOMINOS) award_state) ! s)))
        = set DOMINOS"
    by blast
  from perm four hand1 a b c d show ?thesis by blast
qed

subsection \<open>C8: an empty hand ends the round\<close>


text \<open>
  Short of that branch the step does what C8 says. Whenever a step returns with the acting
  player's hand empty, it has signalled the end of the round with that player as winner and
  the turn index unchanged; and whenever the turn itself emptied the hand (the player held
  tiles before it, or the recorded turn placed a tile) the step returns in this way,
  whatever the board.
\<close>

lemma empty_hand_ends_round:
  "(step ch g = Inr (c, g') \<and> is_hand_empty (players g' ! next_player_index g) \<longrightarrow>
      \<not> c \<and> winner g' = next_player_index g \<and> next_player_index g' = next_player_index g)
   \<and> (execute_turn ch g = Inr g1 \<and> is_hand_empty (players g1 ! next_player_index g)
        \<and> (did_play (last (round_history g1)) \<or> \<not> is_hand_empty (players g ! next_player_index g))
      \<longrightarrow> step ch g = Inr (False, g1\<lparr>winner := next_player_index g\<rparr>))"
proof -
  have "did_play (last (round_history g1))"
    if "execute_turn ch g = Inr g1" "is_hand_empty (players g1 ! next_player_index g)"
       "\<not> is_hand_empty (players g ! next_player_index g)"
  proof (rule ccontr)
    assume "\<not> did_play (last (round_history g1))"
    with that(1) have "players g1 = players g" by (rule execute_turn_pass_keeps_players)
    with that(2,3) show False by simp
  qed
  then show ?thesis
    using step_empty_hand [of ch g c g'] step_after_emptying_play [of ch g g1]
    by blast
qed

text \<open>
  For example P1 goes out with \<open>(5, 6)\<close>, which also locks the board while P2 holds no
  pips: the rule of the locked board would name seat 1.
\<close>

lemma empty_hand_ends_round_example:
  "step choose_five_six (lock_state [(5, 6)] [(0, 0)]) = Inr (False, lock_state_after [] [(0, 0)] 0)
   \<and> is_hand_empty (players (lock_state_after [] [(0, 0)] 0) ! 0)
   \<and> is_locked (lock_state_after [] [(0, 0)] 0) = Inr True
   \<and> \<not> get_points (players (lock_state_after [] [(0, 0)] 0) ! 0)
         < get_points (players (lock_state_after [] [(0, 0)] 0) ! 1)
   \<and> winner (lock_state_after [] [(0, 0)] 0) = 0
   \<and> next_player_index (lock_state_after [] [(0, 0)] 0) = 0"
proof -
  let ?g = "lock_state [(5, 6)] [(0, 0)]"
  let ?g' = "lock_state_after [] [(0, 0)] 0"
  let ?g1 = "lock_state_after [] [(0, 0)] 2"
  have i: "next_player_index ?g = 0" by code_simp
  have ex: "execute_turn choose_five_six ?g = Inr ?g1" by code_simp
  have played: "did_play (last (round_history ?g1))" by code_simp
  have hand1: "is_hand_empty (players ?g1 ! 0)" by code_simp
  have upd: "?g1\<lparr>winner := 0\<rparr> = ?g'" by code_simp
  have hand: "is_hand_empty (players ?g' ! 0)" by code_simp
  have lock: "is_locked ?g' = Inr True" by code_simp
  have pts: "\<not> get_points (players ?g' ! 0) < get_points (players ?g' ! 1)" by code_simp
  from empty_hand_ends_round [of choose_five_six ?g False ?g' ?g1] ex played hand1
  have st: "step choose_five_six ?g = Inr (False, ?g')"
    unfolding i upd by blast
  from empty_hand_ends_round [of choose_five_six ?g False ?g' ?g1] st hand
  have "winner ?g' = 0 \<and> next_player_index ?g' = 0"
    unfolding i by blast
  with st hand lock pts show ?thesis by blast
qed

subsection \<open>C9: scores at the start of a game\<close>

text \<open>
  Claim C9, as stated: after every call of \<open>new_game\<close>, also with a list of players
  supplied by the caller, every score is zero. Here the caller supplies players with the
  scores 50, 0, 50, 0 and they keep them.
\<close>

theorem new_game_keeps_scores_counterexample:
  "map score scored_players = [50, 0, 50, 0]
   \<and> new_game (\<lambda>xs. xs) (Game_init 200) (Some scored_players) False
        = Inr ((Game_init 200)\<lparr>players := map reset scored_players, first_game_round_step := True\<rparr>)
   \<and> map score (players ((Game_init 200)\<lparr>players := map reset scored_players,
                                            first_game_round_step := True\<rparr>)) = [50, 0, 50, 0]"
  by code_simp

text \<open>
  Claim C9, amended: a call of \<open>new_game\<close> without players seats \<open>num_players\<close> fresh
  players (shuffled if requested), all with score zero and an empty hand. A call with a
  non-empty list supplied by the caller seats exactly the supplied players (shuffled if
  requested), each with its own name and its own score as it was and only its hand cleared.
  In both cases the board and the history are cleared, the winner is seat 0, the
  first-round-of-game flag is set true and nothing else of the game changes.
\<close>

theorem new_game_scores:
  assumes "\<And>xs. mset (shuffled xs) = mset xs"
  shows "(0 < num_players g \<and>
          seated = (if shuffle_players
                    then shuffled (map (\<lambda>i. Player_init (''P'' @ str_nat (i + 1))) [0..<num_players g])
                    else map (\<lambda>i. Player_init (''P'' @ str_nat (i + 1))) [0..<num_players g]) \<longrightarrow>
           new_game shuffled g None shuffle_players
             = Inr (g\<lparr>players := seated, played_dominos := [], round_history := [],
                      winner := 0, first_game_round_step := True\<rparr>)
           \<and> length seated = num_players g
           \<and> (\<forall>p \<in> set seated. score p = 0 \<and> dominos p = []))
    \<and> (ps \<noteq> [] \<and> seated = (if shuffle_players then shuffled ps else ps) \<longrightarrow>
           new_game shuffled g (Some ps) shuffle_players
             = Inr (g\<lparr>players := map (\<lambda>p. p\<lparr>dominos := []\<rparr>) seated, played_dominos := [],
                      round_history := [], winner := 0, first_game_round_step := True\<rparr>)
           \<and> mset seated = mset ps
           \<and> map score (map (\<lambda>p. p\<lparr>dominos := []\<rparr>) seated) = map score seated
           \<and> map name (map (\<lambda>p. p\<lparr>dominos := []\<rparr>) seated) = map name seated)"
proof (intro conjI impI)
  let ?fresh = "map (\<lambda>i. Player_init (''P'' @ str_nat (i + 1))) [0..<num_players g]"
  assume a: "0 < num_players g \<and> seated = (if shuffle_players then shuffled ?fresh else ?fresh)"
  then have seated: "seated = (if shuffle_players then shuffled ?fresh else ?fresh)" by simp
  have m: "mset seated = mset ?fresh" unfolding seated using assms by simp
  have len: "length seated = length ?fresh" using m by (rule mset_eq_length)
  then show l: "length seated = num_players g" by simp
  have eq: "set seated = set ?fresh" using m by (rule mset_eq_setD)
  have z0: "\<forall>p \<in> set ?fresh. score p = 0 \<and> dominos p = []" by (auto simp: Player_init_def)
  show z: "\<forall>p \<in> set seated. score p = 0 \<and> dominos p = []" unfolding eq by (rule z0)
  have ne: "seated \<noteq> []" using l a by auto
  have id: "map (\<lambda>p. p\<lparr>dominos := []\<rparr>) seated = seated"
    using z by (simp add: map_idI)
  have "?fresh = (case None of None \<Rightarrow> ?fresh | Some ps \<Rightarrow> ps)" by simp
  from new_game_result [where shuffled = shuffled and g = g and players_arg = None
         and shuffle_players = shuffle_players and seated = seated and given = ?fresh,
         OF seated this] ne id
  show "new_game shuffled g None shuffle_players
             = Inr (g\<lparr>players := seated, played_dominos := [], round_history := [],
                      winner := 0, first_game_round_step := True\<rparr>)"
    by simp
next
  assume a: "ps \<noteq> [] \<and> seated = (if shuffle_players then shuffled ps else ps)"
  then have seated: "seated = (if shuffle_players then shuffled ps else ps)" by simp
  show m: "mset seated = mset ps" unfolding seated using assms by simp
  have "length seated = length ps" using m by (rule mset_eq_length)
  then have ne: "seated \<noteq> []" using a by auto
  have c: "ps = (case Some ps of
                   None \<Rightarrow> map (\<lambda>i. Player_init (''P'' @ str_nat (i + 1))) [0..<num_players g]
                 | Some ps \<Rightarrow> ps)" by simp
  from new_game_result [where shuffled = shuffled and g = g and players_arg = "Some ps"
         and shuffle_players = shuffle_players and seated = seated and given = ps,
         OF seated c] ne
  show "new_game shuffled g (Some ps) shuffle_players
             = Inr (g\<lparr>players := map (\<lambda>p. p\<lparr>dominos := []\<rparr>) seated, played_dominos := [],
                      round_history := [], winner := 0, first_game_round_step := True\<rparr>)"
    by simp
  show "map score (map (\<lambda>p. p\<lparr>dominos := []\<rparr>) seated) = map score seated"
    by (simp add: comp_def)
  show "map name (map (\<lambda>p. p\<lparr>dominos := []\<rparr>) seated) = map name seated"
    by (simp add: comp_def)
qed

text \<open>
  The witness starts both calls from \<open>opening_pass_state\<close>, which has a tile on the board
  and two turns in its history, with \<open>rev\<close> as the shuffle.
\<close>

theorem new_game_scores_witness:
  "(\<forall>xs :: player list. mset (rev xs) = mset xs)
   \<and> 0 < num_players opening_pass_state
   \<and> new_game rev opening_pass_state None True
        = Inr (opening_pass_state\<lparr>players := rev four_players, played_dominos := [],
                 round_history := [], winner := 0, first_game_round_step := True\<rparr>)
   \<and> list_all (\<lambda>p. score p = 0 \<and> dominos p = []) (rev four_players)
   \<and> scored_players \<noteq> []
   \<and> new_game rev opening_pass_state (Some scored_players) True
        = Inr (opening_pass_state\<lparr>players := map (\<lambda>p. p\<lparr>dominos := []\<rparr>) (rev scored_players),
                 played_dominos := [], round_history := [], winner := 0,
                 first_game_round_step := True\<rparr>)
   \<and> mset (rev scored_players) = mset scored_players
   \<and> map score (map (\<lambda>p. p\<lparr>dominos := []\<rparr>) (rev scored_players)) = [0, 50, 0, 50]"
proof -
  let ?g = opening_pass_state
  have perm: "mset (rev xs) = mset xs" for xs :: "player list" by simp
  have n: "0 < num_players ?g" by code_simp
  have ne: "scored_players \<noteq> []" by code_simp
  have fr: "map (\<lambda>i. Player_init (''P'' @ str_nat (i + 1))) [0..<num_players ?g] = four_players"
    by code_simp
  have s1: "rev four_players
      = (if True then rev (map (\<lambda>i. Player_init (''P'' @ str_nat (i + 1))) [0..<num_players ?g])
         else map (\<lambda>i. Player_init (''P'' @ str_nat (i + 1))) [0..<num_players ?g])"
    by (simp only: fr if_True)
  have s2: "rev scored_players = (if True then rev scored_players else scored_players)" by simp
  have sc: "map score (rev scored_players) = [0, 50, 0, 50]" by code_simp
  note fresh = new_game_scores [where shuffled = rev and g = ?g and shuffle_players = True
      and seated = "rev four_players", OF perm, THEN conjunct1, THEN mp, OF conjI [OF n s1]]
  note kept = new_game_scores [where shuffled = rev and g = ?g and shuffle_players = True
      and seated = "rev scored_players" and ps = scored_players, OF perm,
      THEN conjunct2, THEN mp, OF conjI [OF ne s2]]
  from fresh have a: "new_game rev ?g None True
        = Inr (?g\<lparr>players := rev four_players, played_dominos := [],
                 round_history := [], winner := 0, first_game_round_step := True\<rparr>)"
    by (rule conjunct1)
  from fresh have "\<forall>p \<in> set (rev four_players). score p = 0 \<and> dominos p = []"
    by (rule conjunct2 [THEN conjunct2])
  then have b: "list_all (\<lambda>p. score p = 0 \<and> dominos p = []) (rev four_players)"
    by (simp only: list_all_iff)
  from kept have c: "new_game rev ?g (Some scored_players) True
        = Inr (?g\<lparr>players := map (\<lambda>p. p\<lparr>dominos := []\<rparr>) (rev scored_players),
                 played_dominos := [], round_history := [], winner := 0,
                 first_game_round_step := True\<rparr>)"
    by (rule conjunct1)
  from kept have d: "mset (rev scored_players) = mset scored_players"
    by (rule conjunct2 [THEN conjunct1])
  from kept have "map score (map (\<lambda>p. p\<lparr>dominos := []\<rparr>) (rev scored_players))
      = map score (rev scored_players)"
    by (rule conjunct2 [THEN conjunct2, THEN conjunct1])
  then have e: "map score (map (\<lambda>p. p\<lparr>dominos := []\<rparr>) (rev scored_players)) = [0, 50, 0, 50]"
    by (simp only: sc)
  have all: "\<forall>xs :: player list. mset (rev xs) = mset xs" using perm by blast
  show ?thesis
    by (intro conjI all n a b ne c d e)
qed

subsection \<open>C10: teammates hold equal scores\<close>

text \<open>
  Claim C10: in a game of four players whose teammates (seats 0 and 2, seats 1 and 3) hold
  equal scores, every award adds the same amount to both members of exactly one team, and
  after the end-of-round settlement, after the bonus check and after any step that returns
  the teammates still hold equal scores.
\<close>

theorem teammates_keep_equal_scores:
  assumes "length (players g) = 4"
    and "score (players g ! 0) = score (players g ! 2)"
    and "score (players g ! 1) = score (players g ! 3)"
  shows "map score (players (give_points_to_team g pl n)) =
           (if winner g = 0 \<or> winner g = 2
            then [score (players g ! 0) + n, score (players g ! 1),
                  score (players g ! 2) + n, score (players g ! 3)]
            else [score (players g ! 0), score (players g ! 1) + n,
                  score (players g ! 2), score (players g ! 3) + n])
    \<and> score (players (update_score g) ! 0) = score (players (update_score g) ! 2)
    \<and> score (players (update_score g) ! 1) = score (players (update_score g) ! 3)
    \<and> (check_for_bonus_points g = Inr gb \<longrightarrow>
          score (players gb ! 0) = score (players gb ! 2)
          \<and> score (players gb ! 1) = score (players gb ! 3))
    \<and> (step ch g = Inr (c, g') \<longrightarrow>
          length (players g') = 4
          \<and> score (players g' ! 0) = score (players g' ! 2)
          \<and> score (players g' ! 1) = score (players g' ! 3))"
  using give_points_scores [OF assms(1)] give_points_equal [OF assms]
    check_bonus_equal [OF _ assms] step_equal [OF _ assms]
  by (simp add: update_score_def Let_def)

theorem teammates_keep_equal_scores_witness:
  "length (players opening_state) = 4
   \<and> score (players opening_state ! 0) = score (players opening_state ! 2)
   \<and> score (players opening_state ! 1) = score (players opening_state ! 3)
   \<and> step choose_one_two opening_state
        = Inr (True, (give_points_to_team opening_pass_state 1 25)\<lparr>next_player_index := 2\<rparr>)
   \<and> map score (players ((give_points_to_team opening_pass_state 1 25)\<lparr>next_player_index := 2\<rparr>))
        = [25, 0, 25, 0]
   \<and> score (players ((give_points_to_team opening_pass_state 1 25)\<lparr>next_player_index := 2\<rparr>) ! 0)
        = score (players ((give_points_to_team opening_pass_state 1 25)\<lparr>next_player_index := 2\<rparr>) ! 2)
   \<and> score (players ((give_points_to_team opening_pass_state 1 25)\<lparr>next_player_index := 2\<rparr>) ! 1)
        = score (players ((give_points_to_team opening_pass_state 1 25)\<lparr>next_player_index := 2\<rparr>) ! 3)"
proof -
  let ?g' = "(give_points_to_team opening_pass_state 1 25)\<lparr>next_player_index := 2\<rparr>"
  have four: "length (players opening_state) = 4" by code_simp
  have even: "score (players opening_state ! 0) = score (players opening_state ! 2)" by code_simp
  have odd: "score (players opening_state ! 1) = score (players opening_state ! 3)" by code_simp
  have st: "step choose_one_two opening_state = Inr (True, ?g')" by code_simp
  have sc: "map score (players ?g') = [25, 0, 25, 0]" by code_simp
  from teammates_keep_equal_scores [OF four even odd, of _ _ _ choose_one_two True ?g'] st
  have "score (players ?g' ! 0) = score (players ?g' ! 2)
        \<and> score (players ?g' ! 1) = score (players ?g' ! 3)"
    by blast
  with four even odd st sc show ?thesis by blast
qed

end
